theory Spec2Isabelle
  imports Complex_Main
begin

section \<open>The game-segment detector of split_lol_games.py\<close>

text \<open>
  Times are Python floats in the source. They are modelled as real numbers, so the
  arithmetic of the model is exact; special float values (NaN, infinities) are outside
  the model. Integers are Python's unbounded integers.
\<close>

subsection \<open>Tunables\<close>

text \<open>
  The module-level constants of the source, gathered in a record so that statements can
  range over every configuration. \<open>default_config\<close> holds the values written in the file.
\<close>

record config =
  SAMPLE_EVERY_SEC :: real
  START_THRESHOLD_SEC :: int
  MIN_GAP_BETWEEN_GAMES :: real
  CLOCK_MISSING_LIMIT :: int
  TAIL_AFTER_CLOCK_MISS :: real
  MIN_SEGMENT_SEC :: real

definition default_config :: config where
  "default_config =
     \<lparr>SAMPLE_EVERY_SEC = 3, START_THRESHOLD_SEC = 120, MIN_GAP_BETWEEN_GAMES = 90,
      CLOCK_MISSING_LIMIT = 10, TAIL_AFTER_CLOCK_MISS = 20, MIN_SEGMENT_SEC = 120\<rparr>"

subsection \<open>Videos\<close>

text \<open>
  What \<open>cv2.VideoCapture(path)\<close> gives the detector: whether the capture opened, the two
  metadata values read with \<open>cap.get\<close>, and the frames in stream order. \<open>cap.grab()\<close>
  succeeds once per element of \<open>frames\<close>. A frame is \<open>Undecodable\<close> when \<open>cap.retrieve()\<close>
  returns no image; otherwise it carries the value that \<open>extract_clock_seconds\<close> reads in
  its cropped corner (\<open>None\<close> when no clock is read).
\<close>

datatype frame = Undecodable | Decoded "int option"

record video =
  opened :: bool
  fps_raw :: real
  frame_count_raw :: real
  frames :: "frame list"

datatype error = RuntimeError | CalledProcessError | FileNotFoundError

text \<open>Python's \<open>int(x)\<close> on a float truncates towards zero.\<close>

definition py_int :: "real \<Rightarrow> int" where
  "py_int x = (if 0 \<le> x then \<lfloor>x\<rfloor> else \<lceil>x\<rceil>)"

subsection \<open>The state of the detection loop\<close>

text \<open>
  The local variables of \<open>detect_segments\<close> that live across iterations. \<open>t_sec\<close> is
  unbound until the first sampled frame.
\<close>

record dstate =
  last_start_time :: real
  segments :: "(real \<times> real) list"
  open_segment_start :: "real option"
  last_clock_seen_time :: "real option"
  clock_missing_count :: int
  t_sec :: "real option"

definition init_state :: dstate where
  "init_state =
     \<lparr>last_start_time = - 9999, segments = [], open_segment_start = None,
      last_clock_seen_time = None, clock_missing_count = 0, t_sec = None\<rparr>"

text \<open>Lines 164-168: a readable clock resets the streak, an unreadable one extends it.\<close>

definition observe :: "real \<Rightarrow> int option \<Rightarrow> dstate \<Rightarrow> dstate" where
  "observe t clock_val st =
     (case clock_val of
        Some c \<Rightarrow> st\<lparr>last_clock_seen_time := Some t, clock_missing_count := 0\<rparr>
      | None \<Rightarrow> st\<lparr>clock_missing_count := clock_missing_count st + 1\<rparr>)"

text \<open>Lines 170-174: the start transition with its gap guard.\<close>

definition try_open :: "config \<Rightarrow> real \<Rightarrow> int option \<Rightarrow> dstate \<Rightarrow> dstate" where
  "try_open cfg t clock_val st =
     (case clock_val of
        None \<Rightarrow> st
      | Some c \<Rightarrow>
          if open_segment_start st = None \<and> c \<le> START_THRESHOLD_SEC cfg then
            (if t - last_start_time st \<ge> MIN_GAP_BETWEEN_GAMES cfg
             then st\<lparr>open_segment_start := Some t, last_start_time := t\<rparr>
             else st)
          else st)"

text \<open>Lines 176-184: the close transition, with the guard on \<open>last_clock_seen_time\<close>.\<close>

definition try_close :: "config \<Rightarrow> real \<Rightarrow> dstate \<Rightarrow> dstate" where
  "try_close cfg duration st =
     (case open_segment_start st of
        None \<Rightarrow> st
      | Some s \<Rightarrow>
          if clock_missing_count st \<ge> CLOCK_MISSING_LIMIT cfg then
            (case last_clock_seen_time st of
               None \<Rightarrow> st
             | Some l \<Rightarrow>
                 let end_sec = min (l + TAIL_AFTER_CLOCK_MISS cfg) duration;
                     dur = end_sec - s
                 in st\<lparr>segments :=
                         (if dur \<ge> MIN_SEGMENT_SEC cfg then segments st @ [(s, end_sec)]
                          else segments st),
                       open_segment_start := None,
                       clock_missing_count := 0\<rparr>)
          else st)"

text \<open>Lines 160-184: the body of the loop for one sampled frame.\<close>

definition process :: "config \<Rightarrow> real \<Rightarrow> real \<Rightarrow> int option \<Rightarrow> dstate \<Rightarrow> dstate" where
  "process cfg duration t clock_val st =
     try_close cfg duration (try_open cfg t clock_val (observe t clock_val (st\<lparr>t_sec := Some t\<rparr>)))"

text \<open>
  Lines 148-187: the \<open>while True\<close> loop. It ends when \<open>grab\<close> fails (no frame left) or
  when \<open>retrieve\<close> fails on a sampled frame; frames whose index is not a multiple of
  \<open>step\<close> are skipped.
\<close>

fun scan :: "config \<Rightarrow> real \<Rightarrow> real \<Rightarrow> nat \<Rightarrow> frame list \<Rightarrow> nat \<Rightarrow> dstate \<Rightarrow> dstate" where
  "scan cfg fps duration step [] frame_idx st = st"
| "scan cfg fps duration step (f # fs) frame_idx st =
     (if frame_idx mod step \<noteq> 0 then scan cfg fps duration step fs (frame_idx + 1) st
      else case f of
             Undecodable \<Rightarrow> st
           | Decoded clock_val \<Rightarrow>
               scan cfg fps duration step fs (frame_idx + 1)
                 (process cfg duration (real frame_idx / fps) clock_val st))"

text \<open>Lines 191-196: a segment still open at the end of the stream.\<close>

definition finish :: "config \<Rightarrow> real \<Rightarrow> dstate \<Rightarrow> (real \<times> real) list" where
  "finish cfg duration st =
     (case open_segment_start st of
        None \<Rightarrow> segments st
      | Some s \<Rightarrow>
          if duration - s \<ge> MIN_SEGMENT_SEC cfg then segments st @ [(s, duration)]
          else segments st)"

text \<open>Lines 134-137: the values computed from the metadata.\<close>

definition effective_fps :: "video \<Rightarrow> real" where
  "effective_fps v = (if fps_raw v = 0 then 30 else fps_raw v)"

definition total_frames :: "video \<Rightarrow> int" where
  "total_frames v = py_int (frame_count_raw v)"

definition video_duration :: "video \<Rightarrow> real" where
  "video_duration v = real_of_int (total_frames v) / effective_fps v"

definition sample_step :: "config \<Rightarrow> video \<Rightarrow> nat" where
  "sample_step cfg v = nat (max 1 (py_int (effective_fps v * SAMPLE_EVERY_SEC cfg)))"

definition loop_state :: "config \<Rightarrow> video \<Rightarrow> dstate" where
  "loop_state cfg v =
     scan cfg (effective_fps v) (video_duration v) (sample_step cfg v) (frames v) 0 init_state"

definition detect_segments :: "config \<Rightarrow> video \<Rightarrow> error + (real \<times> real) list" where
  "detect_segments cfg v =
     (if \<not> opened v then Inl RuntimeError
      else Inr (finish cfg (video_duration v) (loop_state cfg v)))"

subsection \<open>The loop as a consumer of samples\<close>

text \<open>
  The frames the loop retrieves, with their indices: those whose index is a multiple of
  \<open>step\<close>. \<open>sample_stream\<close> turns them into (timestamp, clock reading) samples and stops
  at the first frame that cannot be retrieved. \<open>feed\<close> runs the loop body over a sample
  stream.
\<close>

fun sampled_frames :: "nat \<Rightarrow> nat \<Rightarrow> frame list \<Rightarrow> (nat \<times> frame) list" where
  "sampled_frames step frame_idx [] = []"
| "sampled_frames step frame_idx (f # fs) =
     (if frame_idx mod step \<noteq> 0 then sampled_frames step (frame_idx + 1) fs
      else (frame_idx, f) # sampled_frames step (frame_idx + 1) fs)"

fun sample_stream :: "real \<Rightarrow> (nat \<times> frame) list \<Rightarrow> (real \<times> int option) list" where
  "sample_stream fps [] = []"
| "sample_stream fps ((i, Undecodable) # xs) = []"
| "sample_stream fps ((i, Decoded clock_val) # xs) = (real i / fps, clock_val) # sample_stream fps xs"

fun feed :: "config \<Rightarrow> real \<Rightarrow> (real \<times> int option) list \<Rightarrow> dstate \<Rightarrow> dstate" where
  "feed cfg duration [] st = st"
| "feed cfg duration ((t, clock_val) # xs) st = feed cfg duration xs (process cfg duration t clock_val st)"

text \<open>
  The synthetic stream of the specification's example: readable samples every 3 seconds
  from 0 to 297 (the readings after the first four are taken to be 70), twelve unreadable
  samples from 300 on, and a last sample (333, 5).
\<close>

definition synthetic_stream :: "(real \<times> int option) list" where
  "synthetic_stream =
     [(0, Some 125), (3, Some 118), (6, Some 95), (9, Some 70)]
     @ map (\<lambda>k. (3 * real k, Some 70)) [4..<100]
     @ map (\<lambda>k. (3 * real k, None)) [100..<112]
     @ [(333, Some 5)]"

section \<open>Repair, cutting and the command line\<close>

text \<open>
  The world outside the program: the result of \<open>get_ffmpeg()\<close> (\<open>None\<close> when it raises
  \<open>FileNotFoundError\<close>), what \<open>cv2.VideoCapture\<close> gives for a path at the moment the
  program opens it, the exit status of the transcoder for a command line, and the library
  functions \<open>os.path.splitext\<close> (first component), \<open>os.path.join\<close> and \<open>str\<close> on floats.
  Functions that start processes return the command lines they invoked, in order, beside
  their result.
\<close>

record env =
  ffmpeg_bin :: "string option"
  capture :: "string \<Rightarrow> video"
  run_status :: "string list \<Rightarrow> int"
  splitext_base :: "string \<Rightarrow> string"
  path_join :: "string \<Rightarrow> string \<Rightarrow> string"
  str_float :: "real \<Rightarrow> string"

definition remux_cmd :: "string \<Rightarrow> string \<Rightarrow> string \<Rightarrow> string list" where
  "remux_cmd ffmpeg path fixed =
     [ffmpeg, ''-y'', ''-err_detect'', ''ignore_err'', ''-i'', path,
      ''-map'', ''0'', ''-c'', ''copy'', ''-movflags'', ''+faststart'', fixed]"

definition reencode_cmd :: "string \<Rightarrow> string \<Rightarrow> string \<Rightarrow> string list" where
  "reencode_cmd ffmpeg path reenc =
     [ffmpeg, ''-y'', ''-err_detect'', ''ignore_err'', ''-i'', path, ''-map'', ''0'',
      ''-c:v'', ''libx264'', ''-preset'', ''veryfast'', ''-crf'', ''20'',
      ''-c:a'', ''aac'', ''-b:a'', ''160k'', ''-movflags'', ''+faststart'', reenc]"

text \<open>
  Lines 95-127. A failure inside the \<open>try\<close> block (the remux exits non-zero, or the
  remuxed file does not open) falls through to the re-encode; the re-encode runs with
  \<open>check=True\<close> outside any \<open>try\<close>.
\<close>

definition ensure_readable_video :: "env \<Rightarrow> string \<Rightarrow> string list list \<times> (error + string)" where
  "ensure_readable_video e path =
     (if opened (capture e path) then ([], Inr path)
      else case ffmpeg_bin e of
             None \<Rightarrow> ([], Inl FileNotFoundError)
           | Some ffmpeg \<Rightarrow>
               let base = splitext_base e path;
                   fixed = base @ ''_fixed.mp4'';
                   cmd1 = remux_cmd ffmpeg path fixed
               in if run_status e cmd1 = 0 \<and> opened (capture e fixed) then ([cmd1], Inr fixed)
                  else
                    let reenc = base @ ''_reenc.mp4'';
                        cmd2 = reencode_cmd ffmpeg path reenc
                    in if run_status e cmd2 \<noteq> 0 then ([cmd1, cmd2], Inl CalledProcessError)
                       else if opened (capture e reenc) then ([cmd1, cmd2], Inr reenc)
                       else ([cmd1, cmd2], Inl RuntimeError))"

text \<open>The format \<open>{i:02d}\<close>: decimal digits, padded with a zero to two places.\<close>

fun decimal :: "nat \<Rightarrow> string" where
  "decimal n = (if n < 10 then [''0123456789'' ! n]
                else decimal (n div 10) @ [''0123456789'' ! (n mod 10)])"

definition fmt_02d :: "nat \<Rightarrow> string" where
  "fmt_02d n = (if n < 10 then CHR ''0'' # decimal n else decimal n)"

text \<open>Lines 207-224: the command line of one cut.\<close>

definition cut_cmd :: "env \<Rightarrow> string \<Rightarrow> string \<Rightarrow> string \<Rightarrow> bool \<Rightarrow> nat \<Rightarrow> real \<times> real \<Rightarrow> string list" where
  "cut_cmd e ffmpeg input_path output_dir reencode i seg =
     (let out = path_join e output_dir (''Game_'' @ fmt_02d i @ ''.mp4'')
      in if reencode then
           [ffmpeg, ''-y'', ''-ss'', str_float e (fst seg), ''-to'', str_float e (snd seg),
            ''-i'', input_path,
            ''-c:v'', ''libx264'', ''-preset'', ''veryfast'', ''-crf'', ''20'',
            ''-c:a'', ''aac'', ''-b:a'', ''160k'', out]
         else
           [ffmpeg, ''-y'', ''-ss'', str_float e (fst seg), ''-to'', str_float e (snd seg),
            ''-i'', input_path, ''-c'', ''copy'', out])"

text \<open>
  Lines 206-226: the \<open>for\<close> loop. \<open>subprocess.run(cmd, check=True)\<close> raises
  \<open>CalledProcessError\<close> on a non-zero exit status, and nothing catches it.
\<close>

fun cut_loop :: "env \<Rightarrow> string \<Rightarrow> string \<Rightarrow> string \<Rightarrow> bool \<Rightarrow> nat \<Rightarrow> (real \<times> real) list
                  \<Rightarrow> string list list \<times> (error + unit)" where
  "cut_loop e ffmpeg input_path output_dir reencode i [] = ([], Inr ())"
| "cut_loop e ffmpeg input_path output_dir reencode i (seg # rest) =
     (let cmd = cut_cmd e ffmpeg input_path output_dir reencode i seg
      in if run_status e cmd \<noteq> 0 then ([cmd], Inl CalledProcessError)
         else case cut_loop e ffmpeg input_path output_dir reencode (i + 1) rest of
                (invoked, r) \<Rightarrow> (cmd # invoked, r))"

definition cut_segments :: "env \<Rightarrow> string \<Rightarrow> (real \<times> real) list \<Rightarrow> string \<Rightarrow> bool
                              \<Rightarrow> string list list \<times> (error + unit)" where
  "cut_segments e input_path segs output_dir reencode =
     (case ffmpeg_bin e of
        None \<Rightarrow> ([], Inl FileNotFoundError)
      | Some ffmpeg \<Rightarrow> cut_loop e ffmpeg input_path output_dir reencode 1 segs)"

text \<open>The command lines of a whole batch, numbered from \<open>i\<close>.\<close>

fun cut_cmds :: "env \<Rightarrow> string \<Rightarrow> string \<Rightarrow> string \<Rightarrow> bool \<Rightarrow> nat \<Rightarrow> (real \<times> real) list
                  \<Rightarrow> string list list" where
  "cut_cmds e ffmpeg input_path output_dir reencode i [] = []"
| "cut_cmds e ffmpeg input_path output_dir reencode i (seg # rest) =
     cut_cmd e ffmpeg input_path output_dir reencode i seg
       # cut_cmds e ffmpeg input_path output_dir reencode (i + 1) rest"

text \<open>Lines 229-239. \<open>if not segs\<close> returns normally.\<close>

definition main :: "config \<Rightarrow> env \<Rightarrow> string \<Rightarrow> string \<Rightarrow> bool \<Rightarrow> string list list \<times> (error + unit)" where
  "main cfg e input_video output_dir reencode =
     (case ensure_readable_video e input_video of
        (invoked, Inl err) \<Rightarrow> (invoked, Inl err)
      | (invoked, Inr good_path) \<Rightarrow>
          (case detect_segments cfg (capture e good_path) of
             Inl err \<Rightarrow> (invoked, Inl err)
           | Inr segs \<Rightarrow>
               if segs = [] then (invoked, Inr ())
               else case cut_segments e good_path segs output_dir reencode of
                      (invoked2, r) \<Rightarrow> (invoked @ invoked2, r)))"

text \<open>
  Lines 241-249, with the interpreter's exit status: 1 after \<open>sys.exit(1)\<close> or an
  uncaught exception, 0 when the script runs to its end.
\<close>

definition cli :: "config \<Rightarrow> env \<Rightarrow> string list \<Rightarrow> string list list \<times> int" where
  "cli cfg e argv =
     (if length argv < 3 then ([], 1)
      else case main cfg e (argv ! 1) (argv ! 2) (''--reencode'' \<in> set argv) of
             (invoked, Inl err) \<Rightarrow> (invoked, 1)
           | (invoked, Inr u) \<Rightarrow> (invoked, 0))"

section \<open>Invariants of the detection loop\<close>





section \<open>Example inputs\<close>





text \<open>
  A video that ends with a segment open (default tunables, frames 0 and 3 sampled), a
  second one that differs from it only between and after the samples, and a state one
  miss away from a close.
\<close>

definition eof_video :: video where
  "eof_video =
     \<lparr>opened = True, fps_raw = 1, frame_count_raw = 300,
      frames = [Decoded (Some 0), Decoded None, Decoded None, Decoded (Some 3)]\<rparr>"

definition closing_state :: dstate where
  "closing_state =
     \<lparr>last_start_time = 3, segments = [], open_segment_start = Some 3,
      last_clock_seen_time = Some 297, clock_missing_count = 9, t_sec = Some 324\<rparr>"

definition variant_video :: video where
  "variant_video =
     eof_video\<lparr>frames := [Decoded (Some 0), Decoded (Some 50), Undecodable, Decoded (Some 3), Decoded None]\<rparr>"

text \<open>
  Two environments: in the first the source opens at once and only the cut of the first
  game fails; in the second the source does not open and its remux does.
\<close>

definition example_str :: "real \<Rightarrow> string" where
  "example_str x = (if x = 0 then ''0.0'' else if x = 130 then ''130.0''
                    else if x = 200 then ''200.0'' else ''400.0'')"

definition first_cut_fails :: env where
  "first_cut_fails =
     \<lparr>ffmpeg_bin = Some ''ffmpeg'',
      capture = (\<lambda>p. \<lparr>opened = True, fps_raw = 30, frame_count_raw = 0, frames = []\<rparr>),
      run_status = (\<lambda>cmd. if last cmd = ''out/Game_01.mp4'' then 1 else 0),
      splitext_base = (\<lambda>p. takeWhile (\<lambda>c. c \<noteq> CHR ''.'') p),
      path_join = (\<lambda>d f. d @ ''/'' @ f),
      str_float = example_str\<rparr>"


text \<open>
  An open state just after a readable sample at \<open>l\<close>, and the stream of the
  specification's example up to its \<open>n\<close>-th unreadable sample, with the elided readings
  \<open>c\<close> and the timestamps \<open>ts\<close> of the unreadable samples left open.
\<close>

definition open_state :: "real \<Rightarrow> (real \<times> real) list \<Rightarrow> real \<Rightarrow> real \<Rightarrow> dstate" where
  "open_state a sg s l =
     \<lparr>last_start_time = a, segments = sg, open_segment_start = Some s,
      last_clock_seen_time = Some l, clock_missing_count = 0, t_sec = Some l\<rparr>"

definition example_stream :: "(nat \<Rightarrow> int) \<Rightarrow> real list \<Rightarrow> nat \<Rightarrow> (real \<times> int option) list" where
  "example_stream c ts n =
     [(0, Some 125), (3, Some 118), (6, Some 95), (9, Some 70)]
     @ map (\<lambda>k. (3 * real k, Some (c k))) [4..<100]
     @ map (\<lambda>t. (t, None)) (take n ts)"

section \<open>Properties of the detector\<close>

lemmas step_defs = process_def try_close_def try_open_def observe_def

lemma scan_feed:
  "scan cfg fps duration step fs i st = feed cfg duration (sample_stream fps (sampled_frames step i fs)) st"
proof (induction fs arbitrary: i st)
  case Nil
  then show ?case by simp
next
  case (Cons f fs)
  then show ?case by (cases f) simp_all
qed











lemmas ev = detect_segments_def loop_state_def sample_step_def video_duration_def total_frames_def
  effective_fps_def py_int_def finish_def process_def try_close_def try_open_def observe_def init_state_def

lemma sample_step_pos: "0 < sample_step cfg v"
  by (simp add: sample_step_def)











text \<open>
  Claim C10. \<open>fps_raw\<close> is the value \<open>cap.get(CAP_PROP_FPS)\<close> returns, which is 0 when
  the video reports no frame rate or the query fails. With that value the detector does
  not fail on an opened video: it computes the duration, the sampling step and every
  timestamp with 30 frames per second, and returns what it returns for a video that
  reports 30.
\<close>

theorem zero_fps_falls_back:
  "effective_fps (v\<lparr>fps_raw := 0\<rparr>) = 30
   \<and> video_duration (v\<lparr>fps_raw := 0\<rparr>) = real_of_int (total_frames v) / 30
   \<and> sample_step cfg (v\<lparr>fps_raw := 0\<rparr>) = nat (max 1 (py_int (30 * SAMPLE_EVERY_SEC cfg)))
   \<and> detect_segments cfg (v\<lparr>opened := True, fps_raw := 0\<rparr>)
       = Inr (finish cfg (real_of_int (total_frames v) / 30)
               (scan cfg 30 (real_of_int (total_frames v) / 30)
                  (nat (max 1 (py_int (30 * SAMPLE_EVERY_SEC cfg)))) (frames v) 0 init_state))
   \<and> detect_segments cfg (v\<lparr>fps_raw := 0\<rparr>) = detect_segments cfg (v\<lparr>fps_raw := 30\<rparr>)"
  by (simp add: detect_segments_def loop_state_def sample_step_def video_duration_def
        total_frames_def effective_fps_def)

text \<open>
  Claim C7. When the loop ends with a segment open at \<open>s\<close>, the result is the list built
  by the loop followed by \<open>(s, duration)\<close> if \<open>duration - s\<close> reaches \<open>MIN_SEGMENT_SEC\<close>,
  and the list alone otherwise; the end is the duration of the video, whatever
  \<open>last_clock_seen_time\<close> is.
\<close>

theorem eof_closes_at_duration:
  assumes "opened v" and "open_segment_start (loop_state cfg v) = Some s"
  shows "detect_segments cfg v =
           Inr (if MIN_SEGMENT_SEC cfg \<le> video_duration v - s
                then segments (loop_state cfg v) @ [(s, video_duration v)]
                else segments (loop_state cfg v))"
  using assms by (simp add: detect_segments_def finish_def)

lemma eof_video_open: "open_segment_start (loop_state default_config eof_video) = Some 0"
  by (simp add: ev eof_video_def default_config_def)

theorem eof_closes_at_duration_witness:
  "opened eof_video
   \<and> open_segment_start (loop_state default_config eof_video) = Some 0
   \<and> last_clock_seen_time (loop_state default_config eof_video) = Some 3
   \<and> detect_segments default_config eof_video = Inr [(0, 300)]"
proof -
  have o: "opened eof_video" by (simp add: eof_video_def)
  have l: "last_clock_seen_time (loop_state default_config eof_video) = Some 3"
    by (simp add: ev eof_video_def default_config_def)
  have d: "video_duration eof_video = 300"
    by (simp add: ev eof_video_def)
  have sg: "segments (loop_state default_config eof_video) = []"
    by (simp add: ev eof_video_def default_config_def)
  have m: "MIN_SEGMENT_SEC default_config = 120" by (simp add: default_config_def)
  show ?thesis
    using eof_closes_at_duration [OF o eof_video_open] o eof_video_open l
    by (simp add: d sg m)
qed

text \<open>
  Claim C5. One iteration of the loop on a state with a segment open at \<open>s\<close> and a last
  clock sighting \<open>l\<close> (every reachable open state has one, see C9). The streak after the
  sample is the old one plus one on an unreadable sample and 0 on a readable one. The
  segment is closed exactly when the streak has reached \<open>CLOCK_MISSING_LIMIT\<close>; the end is
  the minimum of the last sighting plus the tail and the duration; the segment is
  appended exactly when \<open>end - s\<close> reaches \<open>MIN_SEGMENT_SEC\<close>, and in both cases the machine
  is idle again with the streak at 0. Otherwise the segment stays open.
\<close>

theorem close_transition:
  assumes "open_segment_start st = Some s" and "last_clock_seen_time st = Some l"
  shows "process cfg duration t clock_val st =
    (let streak = (if clock_val = None then clock_missing_count st + 1 else 0);
         seen = (if clock_val = None then l else t);
         end_sec = min (seen + TAIL_AFTER_CLOCK_MISS cfg) duration
     in if CLOCK_MISSING_LIMIT cfg \<le> streak
        then st\<lparr>segments := (if MIN_SEGMENT_SEC cfg \<le> end_sec - s
                              then segments st @ [(s, end_sec)] else segments st),
                open_segment_start := None,
                last_clock_seen_time := Some seen,
                clock_missing_count := 0,
                t_sec := Some t\<rparr>
        else st\<lparr>last_clock_seen_time := Some seen, clock_missing_count := streak, t_sec := Some t\<rparr>)"
  using assms by (cases clock_val) (simp_all add: step_defs Let_def)

theorem close_transition_witness:
  "open_segment_start closing_state = Some 3
   \<and> last_clock_seen_time closing_state = Some 297
   \<and> process default_config 400 327 None closing_state =
       \<lparr>last_start_time = 3, segments = [(3, 317)], open_segment_start = None,
        last_clock_seen_time = Some 297, clock_missing_count = 0, t_sec = Some 327\<rparr>"
proof -
  have o: "open_segment_start closing_state = Some 3" by (simp add: closing_state_def)
  have l: "last_clock_seen_time closing_state = Some 297" by (simp add: closing_state_def)
  show ?thesis
    using close_transition [OF o l, of default_config 400 327 None] o l
    by (simp add: closing_state_def default_config_def)
qed






lemma div_decomp:
  fixes r q step :: nat
  assumes "r < step"
  shows "(r + q * step) div step = q"
  using assms by simp

lemma ceil_skip:
  fixes i step :: nat
  assumes "0 < step" "i mod step \<noteq> 0"
  shows "(i + 1 + step - 1) div step = (i + step - 1) div step"
proof -
  define q r where "q = i div step" and "r = i mod step"
  have i: "i = q * step + r" and r: "0 < r" "r < step"
    using assms by (simp_all add: q_def r_def)
  have e1: "i + 1 + step - 1 = r + (q + 1) * step" using i by simp
  have a: "(i + 1 + step - 1) div step = q + 1"
    unfolding e1 using r(2) by (rule div_decomp)
  have e2: "i + step - 1 = (r - 1) + (q + 1) * step" using i r by simp
  have "r - 1 < step" using r by simp
  then have b: "(i + step - 1) div step = q + 1"
    unfolding e2 by (rule div_decomp)
  from a b show ?thesis by simp
qed

lemma ceil_multiple:
  fixes k step :: nat
  assumes "0 < step"
  shows "(k * step + step - 1) div step = k"
proof -
  have e: "k * step + step - 1 = (step - 1) + k * step" using assms by simp
  have "step - 1 < step" using assms by simp
  then show ?thesis unfolding e by (rule div_decomp)
qed

lemma ceil_next:
  fixes k step :: nat
  assumes "0 < step"
  shows "(k * step + 1 + step - 1) div step = k + 1"
proof -
  have e: "k * step + 1 + step - 1 = 0 + (k + 1) * step" by simp
  show ?thesis unfolding e using assms by (rule div_decomp)
qed

lemma sampled_frames_indices:
  assumes step: "0 < step"
  shows "map fst (sampled_frames step i fs)
         = map (\<lambda>j. ((i + step - 1) div step + j) * step) [0..<length (sampled_frames step i fs)]"
proof (induction fs arbitrary: i)
  case Nil
  then show ?case by simp
next
  case (Cons f fs)
  show ?case
  proof (cases "i mod step = 0")
    case False
    have "(i + 1 + step - 1) div step = (i + step - 1) div step"
      using step False by (rule ceil_skip)
    then show ?thesis using False Cons.IH [of "i + 1"] by simp
  next
    case True
    then have "step dvd i" by (simp add: mod_eq_0_iff_dvd)
    then obtain k where "i = step * k" ..
    then have k: "i = k * step" by (simp add: mult.commute)
    have a: "(i + step - 1) div step = k" unfolding k using step by (rule ceil_multiple)
    have b: "(i + 1 + step - 1) div step = k + 1" unfolding k using step by (rule ceil_next)
    have ih: "map fst (sampled_frames step (i + 1) fs)
           = map (\<lambda>j. (k + 1 + j) * step) [0..<length (sampled_frames step (i + 1) fs)]"
      using Cons.IH [of "i + 1"] by (simp only: b)
    have sh: "map (\<lambda>j. (k + j) * step) [0..<Suc n] = k * step # map (\<lambda>j. (k + 1 + j) * step) [0..<n]" for n
      by (simp add: upt_conv_Cons map_Suc_upt [symmetric] del: upt_Suc)
    have "sampled_frames step i (f # fs) = (i, f) # sampled_frames step (i + 1) fs"
      using True by simp
    then have "map fst (sampled_frames step i (f # fs))
                = i # map (\<lambda>j. (k + 1 + j) * step) [0..<length (sampled_frames step (i + 1) fs)]"
      and len: "length (sampled_frames step i (f # fs)) = Suc (length (sampled_frames step (i + 1) fs))"
      using ih by simp_all
    then show ?thesis unfolding a len sh using k by simp
  qed
qed

lemma sampled_frames_readings:
  assumes step: "0 < step"
    and eq: "map snd (sampled_frames step 0 fs) = map snd (sampled_frames step 0 gs)"
  shows "sampled_frames step 0 fs = sampled_frames step 0 gs"
proof -
  have "length (map snd (sampled_frames step 0 fs)) = length (map snd (sampled_frames step 0 gs))"
    using eq by simp
  then have len: "length (sampled_frames step 0 fs) = length (sampled_frames step 0 gs)" by simp
  have "map fst (sampled_frames step 0 fs) = map fst (sampled_frames step 0 gs)"
    by (simp only: sampled_frames_indices [OF step] len)
  with eq show ?thesis by (simp add: pair_list_eqI)
qed

text \<open>
  Claim C8. The result of \<open>detect_segments\<close> is a function of the configuration, of whether
  the capture opened, of the two metadata values and of the sampled frames (their
  retrievability and clock readings, in order): two runs that see the same of these
  return the same segment list, whatever the frames between the samples are.
\<close>

theorem detect_segments_deterministic:
  assumes "opened v1 = opened v2" and "fps_raw v1 = fps_raw v2"
    and "frame_count_raw v1 = frame_count_raw v2"
    and "map snd (sampled_frames (sample_step cfg v1) 0 (frames v1))
         = map snd (sampled_frames (sample_step cfg v2) 0 (frames v2))"
  shows "detect_segments cfg v1 = detect_segments cfg v2"
proof -
  have fps: "effective_fps v1 = effective_fps v2" using assms(2) by (simp add: effective_fps_def)
  have st: "sample_step cfg v1 = sample_step cfg v2" using fps by (simp add: sample_step_def)
  have du: "video_duration v1 = video_duration v2"
    using fps assms(3) by (simp add: video_duration_def total_frames_def)
  have "sampled_frames (sample_step cfg v2) 0 (frames v1) = sampled_frames (sample_step cfg v2) 0 (frames v2)"
    using assms(4) unfolding st by (rule sampled_frames_readings [OF sample_step_pos])
  then have "loop_state cfg v1 = loop_state cfg v2"
    by (simp add: loop_state_def scan_feed fps st du)
  then show ?thesis using assms(1) du by (simp add: detect_segments_def)
qed

theorem detect_segments_deterministic_witness:
  "opened eof_video = opened variant_video
   \<and> fps_raw eof_video = fps_raw variant_video
   \<and> frame_count_raw eof_video = frame_count_raw variant_video
   \<and> map snd (sampled_frames (sample_step default_config eof_video) 0 (frames eof_video))
       = map snd (sampled_frames (sample_step default_config variant_video) 0 (frames variant_video))
   \<and> frames eof_video \<noteq> frames variant_video
   \<and> detect_segments default_config eof_video = detect_segments default_config variant_video"
proof -
  have a: "opened eof_video = opened variant_video" by (simp add: variant_video_def)
  have b: "fps_raw eof_video = fps_raw variant_video" by (simp add: variant_video_def)
  have c: "frame_count_raw eof_video = frame_count_raw variant_video" by (simp add: variant_video_def)
  have d: "map snd (sampled_frames (sample_step default_config eof_video) 0 (frames eof_video))
       = map snd (sampled_frames (sample_step default_config variant_video) 0 (frames variant_video))"
    by (simp add: variant_video_def eof_video_def sample_step_def effective_fps_def py_int_def
          default_config_def)
  have e: "frames eof_video \<noteq> frames variant_video" by (simp add: variant_video_def eof_video_def)
  show ?thesis using detect_segments_deterministic [OF a b c d] a b c d e by simp
qed

section \<open>Properties of repair, cutting and the command line\<close>



lemma cut_loop_trace:
  "cut_loop e ffmpeg input_path output_dir reencode i segs =
     (let cmds = cut_cmds e ffmpeg input_path output_dir reencode i segs;
          ok = takeWhile (\<lambda>c. run_status e c = 0) cmds
      in if length ok = length cmds then (cmds, Inr ())
         else (take (Suc (length ok)) cmds, Inl CalledProcessError))"
proof (induction segs arbitrary: i)
  case Nil
  then show ?case by simp
next
  case (Cons seg rest)
  show ?case
  proof (cases "run_status e (cut_cmd e ffmpeg input_path output_dir reencode i seg) = 0")
    case True
    then show ?thesis using Cons.IH [of "i + 1"] by (simp add: Let_def)
  next
    case False
    then show ?thesis by (simp add: Let_def)
  qed
qed

text \<open>
  Claim C3, as amended. With the transcoder installed, \<open>cut_segments\<close> runs the cut
  commands of the batch in order and stops at the first one that exits with a non-zero
  status: that command is the last one run, the call fails with \<open>CalledProcessError\<close>,
  and the commands of the later segments are not run. When every command exits with 0
  the whole batch is run and the call succeeds.
\<close>

theorem cut_segments_stops_at_first_failure:
  assumes "ffmpeg_bin e = Some ffmpeg"
  shows "cut_segments e input_path segs output_dir reencode =
     (let cmds = cut_cmds e ffmpeg input_path output_dir reencode 1 segs;
          ok = takeWhile (\<lambda>c. run_status e c = 0) cmds
      in if length ok = length cmds then (cmds, Inr ())
         else (take (Suc (length ok)) cmds, Inl CalledProcessError))"
  using assms by (simp add: cut_segments_def cut_loop_trace)

text \<open>
  Claim C3 as stated fails: the cut of the first of two segments exits with 1, the cut of
  the second would exit with 0, and the second is never run.
\<close>

theorem cut_segments_abort_counterexample:
  "cut_segments first_cut_fails ''vod.mp4'' [(0, 130), (200, 400)] ''out'' False
     = ([[''ffmpeg'', ''-y'', ''-ss'', ''0.0'', ''-to'', ''130.0'', ''-i'', ''vod.mp4'',
          ''-c'', ''copy'', ''out/Game_01.mp4'']],
        Inl CalledProcessError)
   \<and> run_status first_cut_fails
        (cut_cmd first_cut_fails ''ffmpeg'' ''vod.mp4'' ''out'' False 2 (200, 400)) = 0"
  by (simp add: cut_segments_def cut_cmd_def fmt_02d_def first_cut_fails_def example_str_def)

theorem cut_segments_stops_at_first_failure_witness:
  "ffmpeg_bin first_cut_fails = Some ''ffmpeg''
   \<and> cut_segments first_cut_fails ''vod.mp4'' [(0, 130), (200, 400)] ''out'' False
       = ([cut_cmd first_cut_fails ''ffmpeg'' ''vod.mp4'' ''out'' False 1 (0, 130)],
          Inl CalledProcessError)"
proof -
  have a: "ffmpeg_bin first_cut_fails = Some ''ffmpeg''" by (simp add: first_cut_fails_def)
  show ?thesis
    using cut_segments_stops_at_first_failure [OF a, of "''vod.mp4''" "[(0, 130), (200, 400)]" "''out''" False] a
    by (simp add: Let_def cut_cmd_def fmt_02d_def first_cut_fails_def example_str_def)
qed

lemma main_cases:
  "main cfg e input_video output_dir reencode =
     (case ensure_readable_video e input_video of
        (invoked, Inl err) \<Rightarrow> (invoked, Inl err)
      | (invoked, Inr good_path) \<Rightarrow>
          (case detect_segments cfg (capture e good_path) of
             Inl err \<Rightarrow> (invoked, Inl err)
           | Inr segs \<Rightarrow>
               if segs = [] then (invoked, Inr ())
               else (invoked @ fst (cut_segments e good_path segs output_dir reencode),
                     snd (cut_segments e good_path segs output_dir reencode))))"
  by (simp add: main_def split: prod.splits sum.splits)

text \<open>
  Claim C4, as amended. With both arguments given, the exit status is 1 or 0, and it is 0
  exactly when the video was opened or repaired, detection returned, and either the
  segment list is empty or every cut succeeded. So a video that cannot be opened or
  repaired gives a non-zero status, while zero detected segments give status 0; in that
  case the only processes run are those of the repair, and no cut is run.
\<close>

theorem cli_exit_status:
  assumes "3 \<le> length argv"
  shows "(snd (cli cfg e argv) = 0 \<or> snd (cli cfg e argv) = 1)
       \<and> (snd (cli cfg e argv) = 0 \<longleftrightarrow>
            (\<exists>good segs. snd (ensure_readable_video e (argv ! 1)) = Inr good
               \<and> detect_segments cfg (capture e good) = Inr segs
               \<and> (segs = [] \<or> snd (cut_segments e good segs (argv ! 2) (''--reencode'' \<in> set argv)) = Inr ())))
       \<and> (\<forall>good. snd (ensure_readable_video e (argv ! 1)) = Inr good
               \<and> detect_segments cfg (capture e good) = Inr []
             \<longrightarrow> cli cfg e argv = (fst (ensure_readable_video e (argv ! 1)), 0))"
proof -
  obtain tr r where er: "ensure_readable_video e (argv ! 1) = (tr, r)" by (cases "ensure_readable_video e (argv ! 1)")
  show ?thesis
  proof (cases r)
    case (Inl err)
    then show ?thesis using er assms
      by (simp add: cli_def main_cases)
  next
    case (Inr good)
    show ?thesis
    proof (cases "detect_segments cfg (capture e good)")
      case (Inl err)
      then show ?thesis using er Inr assms by (simp add: cli_def main_cases)
    next
      case det: (Inr segs)
      show ?thesis
      proof (cases "segs = []")
        case True
        then show ?thesis using er Inr det assms by (simp add: cli_def main_cases)
      next
        case False
        then show ?thesis using er Inr det assms
          by (cases "snd (cut_segments e good segs (argv ! 2) (''--reencode'' \<in> set argv))")
             (simp_all add: cli_def main_cases)
      qed
    qed
  qed
qed

text \<open>
  Claim C4 as stated fails: a video that opens and has no frame gives no segment, and
  the command line ends with status 0.
\<close>

theorem cli_zero_segments_counterexample:
  "detect_segments default_config (capture first_cut_fails ''vod.mp4'') = Inr []
   \<and> cli default_config first_cut_fails [''split_lol_games.py'', ''vod.mp4'', ''out''] = ([], 0)"
  by (simp add: cli_def main_def ensure_readable_video_def first_cut_fails_def ev)

theorem cli_exit_status_witness:
  "3 \<le> length [''split_lol_games.py'', ''vod.mp4'', ''out'']
   \<and> snd (ensure_readable_video first_cut_fails ''vod.mp4'') = Inr ''vod.mp4''
   \<and> detect_segments default_config (capture first_cut_fails ''vod.mp4'') = Inr []
   \<and> cli default_config first_cut_fails [''split_lol_games.py'', ''vod.mp4'', ''out''] = ([], 0)"
proof -
  have a: "3 \<le> length [''split_lol_games.py'', ''vod.mp4'', ''out'']" by simp
  have b: "snd (ensure_readable_video first_cut_fails ''vod.mp4'') = Inr ''vod.mp4''"
    by (simp add: ensure_readable_video_def first_cut_fails_def)
  have c: "detect_segments default_config (capture first_cut_fails ''vod.mp4'') = Inr []"
    by (simp add: first_cut_fails_def ev)
  have d: "fst (ensure_readable_video first_cut_fails ''vod.mp4'') = []"
    by (simp add: ensure_readable_video_def first_cut_fails_def)
  show ?thesis
    using cli_exit_status [OF a, of default_config first_cut_fails] a b c d by simp
qed

section \<open>The example stream of the specification\<close>

lemma feed_append: "feed cfg d (xs @ ys) st = feed cfg d ys (feed cfg d xs st)"
  by (induction xs arbitrary: st) auto

lemma process_readable_open:
  "0 < CLOCK_MISSING_LIMIT cfg \<Longrightarrow> process cfg d t (Some c) (open_state a sg s l) = open_state a sg s t"
  by (simp add: open_state_def step_defs)

lemma feed_readable_open:
  assumes "0 < CLOCK_MISSING_LIMIT cfg"
  shows "feed cfg d (map (\<lambda>k. (f k, Some (c k))) ks) (open_state a sg s l)
         = open_state a sg s (if ks = [] then l else f (last ks))"
  using assms by (induction ks arbitrary: l) (simp_all add: process_readable_open)

lemma twelve:
  assumes "length ts = 12"
  obtains t1 t2 t3 t4 t5 t6 t7 t8 t9 t10 t11 t12 :: 'a
  where "ts = [t1, t2, t3, t4, t5, t6, t7, t8, t9, t10, t11, t12]"
proof -
  from assms have "length ts = Suc (Suc (Suc (Suc (Suc (Suc (Suc (Suc (Suc (Suc (Suc (Suc 0)))))))))))"
    by simp
  then show ?thesis using that by (auto simp: length_Suc_conv)
qed

lemma example_readable:
  assumes "g \<le> 10002"
  shows "feed (default_config\<lparr>MIN_GAP_BETWEEN_GAMES := g\<rparr>) d
           ([(0, Some 125), (3, Some 118), (6, Some 95), (9, Some 70)]
            @ map (\<lambda>k. (3 * real k, Some (c k))) [4..<100]) init_state
         = open_state 3 [] 3 297"
proof -
  have pre: "feed (default_config\<lparr>MIN_GAP_BETWEEN_GAMES := g\<rparr>) d
           [(0, Some 125), (3, Some 118), (6, Some 95), (9, Some 70)] init_state = open_state 3 [] 3 9"
    using assms by (simp add: default_config_def init_state_def step_defs open_state_def)
  have lim: "0 < CLOCK_MISSING_LIMIT (default_config\<lparr>MIN_GAP_BETWEEN_GAMES := g\<rparr>)"
    by (simp add: default_config_def)
  have l: "last [4..<100::nat] = 99" by (simp add: last_upt)
  have ne: "[4..<100::nat] \<noteq> []" by simp
  show ?thesis
    unfolding feed_append pre feed_readable_open [OF lim] using l ne by simp
qed

text \<open>
  Claim C2, as amended. The stream is the one of the example: readings 125, 118, 95, 70 at
  0, 3, 6, 9, any readable values \<open>c k\<close> at \<open>3 k\<close> up to 297, then the first \<open>n\<close> of twelve
  unreadable samples (at any timestamps \<open>ts\<close>), and at the end the sample (333, 5). The
  tunables are the defaults, with the minimum gap \<open>g\<close> left open (90 in the example). The
  machine is idle after the sample at 0 and opens the segment at 3, where the reading 118
  is the first one not above 120. The segment is still open after nine misses and is
  closed by the tenth, with end 297 + 20. After the last sample a second segment is open
  at 333 exactly when \<open>333 - 3\<close> reaches the gap.
\<close>

theorem synthetic_stream_run:
  assumes "length ts = 12" and "317 \<le> duration" and "g \<le> 10002"
  shows "open_segment_start
           (feed (default_config\<lparr>MIN_GAP_BETWEEN_GAMES := g\<rparr>) duration [(0, Some 125)] init_state) = None
       \<and> open_segment_start
           (feed (default_config\<lparr>MIN_GAP_BETWEEN_GAMES := g\<rparr>) duration
              [(0, Some 125), (3, Some 118)] init_state) = Some 3
       \<and> open_segment_start
           (feed (default_config\<lparr>MIN_GAP_BETWEEN_GAMES := g\<rparr>) duration
              (example_stream c ts 9) init_state) = Some 3
       \<and> segments
           (feed (default_config\<lparr>MIN_GAP_BETWEEN_GAMES := g\<rparr>) duration
              (example_stream c ts 9) init_state) = []
       \<and> open_segment_start
           (feed (default_config\<lparr>MIN_GAP_BETWEEN_GAMES := g\<rparr>) duration
              (example_stream c ts 10) init_state) = None
       \<and> segments
           (feed (default_config\<lparr>MIN_GAP_BETWEEN_GAMES := g\<rparr>) duration
              (example_stream c ts 10) init_state) = [(3, 317)]
       \<and> segments
           (feed (default_config\<lparr>MIN_GAP_BETWEEN_GAMES := g\<rparr>) duration
              (example_stream c ts 12 @ [(333, Some 5)]) init_state) = [(3, 317)]
       \<and> open_segment_start
           (feed (default_config\<lparr>MIN_GAP_BETWEEN_GAMES := g\<rparr>) duration
              (example_stream c ts 12 @ [(333, Some 5)]) init_state)
         = (if g \<le> 333 - 3 then Some 333 else None)"
proof -
  from assms(1) obtain t1 t2 t3 t4 t5 t6 t7 t8 t9 t10 t11 t12
    where ts: "ts = [t1, t2, t3, t4, t5, t6, t7, t8, t9, t10, t11, t12]" by (rule twelve)
  have e: "feed (default_config\<lparr>MIN_GAP_BETWEEN_GAMES := g\<rparr>) duration (example_stream c ts n) init_state
           = feed (default_config\<lparr>MIN_GAP_BETWEEN_GAMES := g\<rparr>) duration
               (map (\<lambda>t. (t, None)) (take n ts)) (open_state 3 [] 3 297)" for n
    unfolding example_stream_def
    using example_readable [OF assms(3), of duration c]
    by (simp only: append_assoc [symmetric] feed_append [where ys = "map (\<lambda>t. (t, None)) (take n ts)"])
  have m: "min (317::real) duration = 317" using assms(2) by simp
  have a: "open_segment_start
           (feed (default_config\<lparr>MIN_GAP_BETWEEN_GAMES := g\<rparr>) duration [(0, Some 125)] init_state) = None"
    by (simp add: default_config_def init_state_def step_defs)
  have b: "open_segment_start
           (feed (default_config\<lparr>MIN_GAP_BETWEEN_GAMES := g\<rparr>) duration
              [(0, Some 125), (3, Some 118)] init_state) = Some 3"
    using assms(3) by (simp add: default_config_def init_state_def step_defs)
  have c9: "feed (default_config\<lparr>MIN_GAP_BETWEEN_GAMES := g\<rparr>) duration (example_stream c ts 9) init_state
            = (open_state 3 [] 3 297)\<lparr>clock_missing_count := 9, t_sec := Some t9\<rparr>"
    unfolding e by (simp add: ts default_config_def step_defs open_state_def)
  have c10: "feed (default_config\<lparr>MIN_GAP_BETWEEN_GAMES := g\<rparr>) duration (example_stream c ts 10) init_state
            = (open_state 3 [(3, 317)] 3 297)\<lparr>open_segment_start := None, t_sec := Some t10\<rparr>"
    unfolding e by (simp add: ts default_config_def step_defs open_state_def m)
  have c12: "feed (default_config\<lparr>MIN_GAP_BETWEEN_GAMES := g\<rparr>) duration (example_stream c ts 12) init_state
            = (open_state 3 [(3, 317)] 3 297)\<lparr>open_segment_start := None, clock_missing_count := 2,
                 t_sec := Some t12\<rparr>"
    unfolding e by (simp add: ts default_config_def step_defs open_state_def m)
  have d1: "segments
           (feed (default_config\<lparr>MIN_GAP_BETWEEN_GAMES := g\<rparr>) duration
              (example_stream c ts 12 @ [(333, Some 5)]) init_state) = [(3, 317)]"
    unfolding feed_append c12 by (simp add: default_config_def step_defs open_state_def)
  have d2: "open_segment_start
           (feed (default_config\<lparr>MIN_GAP_BETWEEN_GAMES := g\<rparr>) duration
              (example_stream c ts 12 @ [(333, Some 5)]) init_state)
         = (if g \<le> 333 - 3 then Some 333 else None)"
    unfolding feed_append c12 by (simp add: default_config_def step_defs open_state_def)
  show ?thesis
    unfolding c9 c10 using a b d1 d2 by (simp add: open_state_def)
qed

text \<open>
  Claim C2 as stated fails on its first point: on the stream of the example the segment
  is already open after the sample at 3 (reading 118), not opened at 6, and the segment
  that is emitted starts at 3.
\<close>

theorem synthetic_stream_start_counterexample:
  "open_segment_start (feed default_config 400 (take 2 synthetic_stream) init_state) = Some 3
   \<and> segments (feed default_config 400 synthetic_stream init_state) = [(3, 317)]"
  by (simp add: synthetic_stream_def default_config_def init_state_def step_defs)

theorem synthetic_stream_run_witness:
  "length (map (\<lambda>k. 3 * real k) [100..<112]) = 12
   \<and> (317 :: real) \<le> 400
   \<and> (90 :: real) \<le> 10002
   \<and> open_segment_start
        (feed default_config 400 (example_stream (\<lambda>k. 70) (map (\<lambda>k. 3 * real k) [100..<112]) 10) init_state)
       = None
   \<and> segments
        (feed default_config 400
           (example_stream (\<lambda>k. 70) (map (\<lambda>k. 3 * real k) [100..<112]) 12 @ [(333, Some 5)]) init_state)
       = [(3, 317)]
   \<and> open_segment_start
        (feed default_config 400
           (example_stream (\<lambda>k. 70) (map (\<lambda>k. 3 * real k) [100..<112]) 12 @ [(333, Some 5)]) init_state)
       = Some 333"
proof -
  have cfg: "default_config\<lparr>MIN_GAP_BETWEEN_GAMES := 90\<rparr> = default_config"
    by (simp add: default_config_def)
  have a: "length (map (\<lambda>k. 3 * real k) [100..<112]) = 12" by simp
  have b: "(317 :: real) \<le> 400" by simp
  have c: "(90 :: real) \<le> 10002" by simp
  show ?thesis
    using synthetic_stream_run [OF a b c, of "\<lambda>k. 70"] a
    by (simp add: cfg)
qed

lemma synthetic_stream_instance:
  "synthetic_stream = example_stream (\<lambda>k. 70) (map (\<lambda>k. 3 * real k) [100..<112]) 12 @ [(333, Some 5)]"
  by (simp add: synthetic_stream_def example_stream_def)

end
